theory Spec2Isabelle
  imports
    Complex_Main
    "HOL-Library.FSet"
    "HOL-Library.Finite_Map"
    "HOL-Library.Multiset"
    "HOL-Library.Char_ord"
    "HOL-Library.List_Lexorder"
    "HOL-Library.Word"
begin

section \<open>Data model of \<^verbatim>\<open>examples/osgterrain/osgterrain.cpp\<close>\<close>

text \<open>
  \<^verbatim>\<open>typedef std::set<std::string> Files;\<close> and
  \<^verbatim>\<open>typedef std::map<std::string, osg::ref_ptr<osg::Node> > FilenameNodeMap;\<close>
  are finite sets and finite maps over strings. An iteration from \<^verbatim>\<open>begin()\<close> to
  \<^verbatim>\<open>end()\<close> visits the keys in ascending order of \<^verbatim>\<open>std::string::operator<\<close>, the
  lexicographic order on bytes: \<open>sorted_list_of_fset\<close> and \<open>sorted_list_of_fmap\<close> with the
  order of \<open>Char_ord\<close> and \<open>List_Lexorder\<close>. A node is the address held by an
  \<^verbatim>\<open>osg::ref_ptr<osg::Node>\<close>; a null pointer is \<open>None\<close> of \<open>node option\<close>.
\<close>

type_synonym node = nat
type_synonym Files = "string fset"
type_synonym FilenameNodeMap = "(string, node) fmap"

text \<open>
  Modelled from the spec: \<^verbatim>\<open>osg::Group\<close> is one of the engine's scene graph classes and
  is not part of this file. The group is the sequence of its children; \<^verbatim>\<open>addChild\<close> of a
  non-null node appends it, \<^verbatim>\<open>removeChild\<close> takes out the first occurrence of the node
  and does nothing when the node is not a child.
\<close>

type_synonym Group = "node list"

definition addChild :: "Group \<Rightarrow> node \<Rightarrow> Group" where
  "addChild grp child = grp @ [child]"

definition removeChild :: "Group \<Rightarrow> node \<Rightarrow> Group" where
  "removeChild grp child = remove1 child grp"

text \<open>
  Modelled from the spec: \<^verbatim>\<open>osgDB::Input\<close> (the field reader attached to the master
  file) is not part of this file. The stream is the sequence of its fields, each with the
  type the reader gives it and its text (for a quoted string, the text between the
  quotes). \<^verbatim>\<open>eof()\<close> holds when no field is left, \<^verbatim>\<open>++fr\<close> drops one field and
  \<^verbatim>\<open>fr += 2\<close> two; in \<^verbatim>\<open>matchSequence\<close> a literal matches a word field of that text,
  \<^verbatim>\<open>%s\<close> a quoted string and \<^verbatim>\<open>%w\<close> a word.
\<close>

datatype FieldType = OPEN_BRACKET | CLOSE_BRACKET | STRING | WORD | REAL | INTEGER

type_synonym Field = "FieldType \<times> string"

definition isWord :: "Field \<Rightarrow> bool" where
  "isWord f = (fst f = WORD)"

definition isQuotedString :: "Field \<Rightarrow> bool" where
  "isQuotedString f = (fst f = STRING)"

definition matchWord :: "Field \<Rightarrow> string \<Rightarrow> bool" where
  "matchWord f w = (fst f = WORD \<and> snd f = w)"

definition getStr :: "Field \<Rightarrow> string" where
  "getStr f = snd f"

text \<open>
  The operations the graphics threads are given. \<^verbatim>\<open>GLObjectsOperation\<close> wraps the
  node whose GL objects it compiles, \<^verbatim>\<open>BarrierOperation\<close> carries its thread count.
  Every graphics thread (an address) has a queue of operations and \<^verbatim>\<open>add\<close> appends to
  it; the queues are a store indexed by the thread's address, so that a thread reached
  through two contexts is one queue.
\<close>

datatype Operation = GLObjectsOperation node | BarrierOperation nat

type_synonym Queues = "nat \<Rightarrow> Operation list"

definition add :: "Queues \<Rightarrow> nat \<Rightarrow> Operation \<Rightarrow> Queues" where
  "add queues gt operation = queues(gt := queues gt @ [operation])"

text \<open>
  What a call of the program reads from outside: the file system as \<^verbatim>\<open>std::ifstream\<close>
  sees it (\<open>None\<close> when the file cannot be opened), the value that the uninitialised local
  \<^verbatim>\<open>bool readFilename;\<close> of \<^verbatim>\<open>readMasterFile\<close> happens to hold, the model loader
  \<^verbatim>\<open>osgDB::readNodeFile\<close> (\<open>None\<close> for a null result), and the compile contexts of
  \<^verbatim>\<open>osg::GraphicsContext\<close> with their graphics threads. Context IDs are
  \<^verbatim>\<open>unsigned int\<close>.
\<close>

record Engine =
  ifstream :: "string \<Rightarrow> Field list option"
  indeterminate :: bool
  readNodeFile :: "string \<Rightarrow> node option"
  getMaxContextID :: "32 word"
  getCompileContext :: "32 word \<Rightarrow> nat option"
  getGraphicsThread :: "nat \<Rightarrow> nat option"

text \<open>The data members of \<^verbatim>\<open>class MasterOperation\<close>; \<open>barrier\<close> holds the count of the
  barrier operation that \<^verbatim>\<open>_barrier\<close> points to.\<close>

record MasterOperation =
  filename :: string
  existingFilenameNodeMap :: FilenameNodeMap
  nodesToRemove :: Files
  nodesToAdd :: FilenameNodeMap
  barrier :: "nat option"


section \<open>\<^verbatim>\<open>MasterOperation::readMasterFile\<close>\<close>

text \<open>The \<^verbatim>\<open>while(!fr.eof())\<close> loop, with the local \<^verbatim>\<open>readFilename\<close> and the set
  \<^verbatim>\<open>files\<close> as accumulators.\<close>

fun read_fields :: "Field list \<Rightarrow> bool \<Rightarrow> Files \<Rightarrow> bool \<times> Files" where
  "read_fields [] readFilename files = (readFilename, files)"
| "read_fields [f0] readFilename files = (readFilename, files)"
| "read_fields (f0 # f1 # fr) readFilename files =
     (if matchWord f0 ''file'' \<and> (isQuotedString f1 \<or> isWord f1)
      then read_fields fr True (finsert (getStr f1) files)
      else read_fields (f1 # fr) readFilename files)"

definition readMasterFile :: "Engine \<Rightarrow> string \<Rightarrow> Files \<Rightarrow> bool \<times> Files" where
  "readMasterFile e fname files =
     (case ifstream e fname of
        None \<Rightarrow> (False, files)
      | Some fin \<Rightarrow> read_fields fin (indeterminate e) files)"

text \<open>The entries \<^verbatim>\<open>file <name>\<close> of a field sequence, as the loop consumes them.\<close>

fun file_entries :: "Field list \<Rightarrow> string list" where
  "file_entries [] = []"
| "file_entries [f0] = []"
| "file_entries (f0 # f1 # fr) =
     (if matchWord f0 ''file'' \<and> (isQuotedString f1 \<or> isWord f1)
      then getStr f1 # file_entries fr
      else file_entries (f1 # fr))"

section \<open>\<^verbatim>\<open>MasterOperation::open\<close>\<close>

definition open_file :: "Engine \<Rightarrow> string \<Rightarrow> MasterOperation \<times> Group \<Rightarrow> MasterOperation \<times> Group" where
  "open_file e itr = (\<lambda>(mo, grp).
     case readNodeFile e itr of
       None \<Rightarrow> (mo, grp)
     | Some model \<Rightarrow>
         (mo\<lparr>existingFilenameNodeMap := fmupd itr model (existingFilenameNodeMap mo)\<rparr>,
          addChild grp model))"

definition "open" :: "Engine \<Rightarrow> MasterOperation \<Rightarrow> Group \<Rightarrow> bool \<times> MasterOperation \<times> Group" where
  "open e mo grp =
     (let files = snd (readMasterFile e (filename mo) {||});
          (mo', grp') = fold (open_file e) (sorted_list_of_fset files) (mo, grp)
      in (True, mo', grp'))"

section \<open>\<^verbatim>\<open>MasterOperation::operator()\<close>\<close>

text \<open>
  What a call does to \<^verbatim>\<open>_mutex\<close> and to the three members that \<^verbatim>\<open>update\<close>, on the
  main thread, reads and writes as well, in the order it does it: the constructor of a
  \<^verbatim>\<open>ScopedLock\<close> locks the mutex and the end of its block unlocks it; \<open>Read\<close> and
  \<open>Write\<close> are one use of a member each.
\<close>

datatype Member = ExistingFilenameNodeMap | NodesToRemove | NodesToAdd

datatype Effect = Lock | Unlock | Read Member | Write Member

text \<open>
  A sequence of effects keeps to the mutex when every use of a member happens while the
  mutex is held, the mutex is locked only when it is free and unlocked only when it is
  held, and it is free at the end. The first argument says whether the mutex is held at
  the start.
\<close>

fun guarded :: "bool \<Rightarrow> Effect list \<Rightarrow> bool" where
  "guarded held [] = (\<not> held)"
| "guarded held (Lock # effects) = (\<not> held \<and> guarded True effects)"
| "guarded held (Unlock # effects) = (held \<and> guarded False effects)"
| "guarded held (Read m # effects) = (held \<and> guarded held effects)"
| "guarded held (Write m # effects) = (held \<and> guarded held effects)"

text \<open>
  The block under \<^verbatim>\<open>ScopedLock<Mutex> lock(_mutex)\<close> that finds out which files are
  new and which ones have been removed. The first loop reads the shared map once for
  every file (\<^verbatim>\<open>_existingFilenameNodeMap.count(*fitr)\<close>), the second once for every
  entry it visits; each loop hands on the effects so far with its own added.
\<close>

definition find_new :: "Files \<Rightarrow> FilenameNodeMap \<Rightarrow> Effect list \<Rightarrow> Files \<times> Effect list" where
  "find_new files existing effects =
     fold (\<lambda>fitr (newFiles, es).
             (if fitr |\<notin>| fmdom existing then finsert fitr newFiles else newFiles,
              es @ [Read ExistingFilenameNodeMap]))
       (sorted_list_of_fset files) ({||}, effects)"

definition find_removed :: "Files \<Rightarrow> FilenameNodeMap \<Rightarrow> Effect list \<Rightarrow> Files \<times> Effect list" where
  "find_removed files existing effects =
     fold (\<lambda>litr (removedFiles, es).
             (if fst litr |\<notin>| files then finsert (fst litr) removedFiles else removedFiles,
              es @ [Read ExistingFilenameNodeMap]))
       (sorted_list_of_fmap existing) ({||}, effects)"

definition find_new_and_removed :: "Files \<Rightarrow> FilenameNodeMap \<Rightarrow> Files \<times> Files \<times> Effect list" where
  "find_new_and_removed files existing =
     (let (newFiles, es1) = find_new files existing [Lock];
          (removedFiles, es2) = find_removed files existing es1
      in (newFiles, removedFiles, es2 @ [Unlock]))"

text \<open>The effects of the locked block: lock, one read of the shared map for every file
  read and one for every entry of the map, unlock.\<close>

definition diff_effects :: "Files \<Rightarrow> FilenameNodeMap \<Rightarrow> Effect list" where
  "diff_effects files existing =
     Lock # replicate (fcard files + fcard (fmdom existing)) (Read ExistingFilenameNodeMap) @ [Unlock]"

text \<open>
  The loop \<^verbatim>\<open>for(unsigned int i=0; i<= getMaxContextID(); ++i)\<close> that collects the
  graphics threads of the compile contexts. The counter is a 32-bit word: when
  \<^verbatim>\<open>getMaxContextID()\<close> is the largest \<^verbatim>\<open>unsigned int\<close> the counter wraps to 0 and
  the loop never ends, which is the value \<open>None\<close>.
\<close>

definition graphics_thread :: "Engine \<Rightarrow> 32 word \<Rightarrow> nat option" where
  "graphics_thread e i = (case getCompileContext e i of None \<Rightarrow> None | Some gc \<Rightarrow> getGraphicsThread e gc)"

partial_function (option) compile_threads :: "Engine \<Rightarrow> 32 word \<Rightarrow> nat list \<Rightarrow> nat list option" where
  "compile_threads e i threads =
     (if i \<le> getMaxContextID e
      then compile_threads e (i + 1)
             (case graphics_thread e i of None \<Rightarrow> threads | Some gt \<Rightarrow> threads @ [gt])
      else Some threads)"

text \<open>The context IDs 0 through \<^verbatim>\<open>getMaxContextID()\<close>, and the graphics threads found
  for them, in that order.\<close>

definition context_ids :: "Engine \<Rightarrow> 32 word list" where
  "context_ids e = map of_nat [0 ..< Suc (unat (getMaxContextID e))]"

definition discovered_threads :: "Engine \<Rightarrow> nat list" where
  "discovered_threads e = List.map_filter (graphics_thread e) (context_ids e)"

text \<open>
  The locals of the loading loop: \<^verbatim>\<open>nodesToAdd\<close>, the queues of the graphics threads,
  \<^verbatim>\<open>requiresBarrier\<close>, and the filenames passed to \<^verbatim>\<open>osgDB::readNodeFile\<close> so far.
\<close>

record Loading =
  l_nodesToAdd :: FilenameNodeMap
  l_queues :: Queues
  l_requiresBarrier :: bool
  l_reads :: "string list"

definition add_compile :: "Operation \<Rightarrow> nat \<Rightarrow> Loading \<Rightarrow> Loading" where
  "add_compile compileOperation gitr s =
     s\<lparr>l_queues := add (l_queues s) gitr compileOperation, l_requiresBarrier := True\<rparr>"

definition load_file :: "Engine \<Rightarrow> nat list \<Rightarrow> string \<Rightarrow> Loading \<Rightarrow> Loading" where
  "load_file e threads nitr s =
     (let s1 = s\<lparr>l_reads := l_reads s @ [nitr]\<rparr> in
      case readNodeFile e nitr of
        None \<Rightarrow> s1
      | Some loadedModel \<Rightarrow>
          fold (add_compile (GLObjectsOperation loadedModel)) threads
            (s1\<lparr>l_nodesToAdd := fmupd nitr loadedModel (l_nodesToAdd s1)\<rparr>))"

text \<open>
  What the worker thread holds when it reaches the hand-off: the member \<^verbatim>\<open>_barrier\<close>,
  the queues of the graphics threads, the locals \<^verbatim>\<open>files\<close>, \<^verbatim>\<open>newFiles\<close>,
  \<^verbatim>\<open>removedFiles\<close>, \<^verbatim>\<open>nodesToAdd\<close> and \<^verbatim>\<open>threads\<close>, the filenames it passed to the
  loader, whether it has called \<^verbatim>\<open>_barrier->block()\<close>, and what it has done so far to
  the mutex and the shared members.
\<close>

record Prepared =
  p_barrier :: "nat option"
  p_queues :: Queues
  p_files :: Files
  p_newFiles :: Files
  p_removedFiles :: Files
  p_nodesToAdd :: FilenameNodeMap
  p_threads :: "nat list"
  p_reads :: "string list"
  p_barrierBlock :: bool
  p_effects :: "Effect list"

definition load_new_files :: "Engine \<Rightarrow> MasterOperation \<Rightarrow> Queues \<Rightarrow> Files \<Rightarrow> Files \<Rightarrow> Files \<Rightarrow> Effect list \<Rightarrow> nat list \<Rightarrow> Prepared" where
  "load_new_files e mo queues files newFiles removedFiles effects threads =
     (let s = fold (load_file e threads) (sorted_list_of_fset newFiles)
                \<lparr>l_nodesToAdd = fmempty, l_queues = queues, l_requiresBarrier = False, l_reads = []\<rparr>
      in if l_requiresBarrier s
         then \<lparr>p_barrier = Some (length threads + 1),
               p_queues = fold (\<lambda>gitr q. add q gitr (BarrierOperation (length threads + 1))) threads (l_queues s),
               p_files = files, p_newFiles = newFiles, p_removedFiles = removedFiles,
               p_nodesToAdd = l_nodesToAdd s, p_threads = threads, p_reads = l_reads s,
               p_barrierBlock = True, p_effects = effects\<rparr>
         else \<lparr>p_barrier = barrier mo, p_queues = l_queues s,
               p_files = files, p_newFiles = newFiles, p_removedFiles = removedFiles,
               p_nodesToAdd = l_nodesToAdd s, p_threads = threads, p_reads = l_reads s,
               p_barrierBlock = False, p_effects = effects\<rparr>)"

text \<open>
  The compile operations that the loading loop gives to the graphics thread \<open>gt\<close>: for
  every file, in the order of the loop, that loads, one \<^verbatim>\<open>GLObjectsOperation\<close> of the
  loaded model for every place that \<open>gt\<close> has in \<^verbatim>\<open>threads\<close>.
\<close>

definition compile_operations :: "Engine \<Rightarrow> nat list \<Rightarrow> string list \<Rightarrow> nat \<Rightarrow> Operation list" where
  "compile_operations e threads fs gt =
     concat (map (\<lambda>f. case readNodeFile e f of
                         None \<Rightarrow> []
                       | Some loadedModel \<Rightarrow> replicate (count_list threads gt) (GLObjectsOperation loadedModel)) fs)"

text \<open>The body of \<^verbatim>\<open>operator()\<close> up to the hand-off.\<close>

definition prepare :: "Engine \<Rightarrow> MasterOperation \<Rightarrow> Queues \<Rightarrow> Prepared option" where
  "prepare e mo queues =
     (let files = snd (readMasterFile e (filename mo) {||});
          (newFiles, removedFiles, effects) = find_new_and_removed files (existingFilenameNodeMap mo)
      in if newFiles \<noteq> {||}
         then (case compile_threads e 0 [] of
                 None \<Rightarrow> None
               | Some threads \<Rightarrow>
                   Some (load_new_files e mo queues files newFiles removedFiles effects threads))
         else Some \<lparr>p_barrier = barrier mo, p_queues = queues,
                    p_files = files, p_newFiles = newFiles, p_removedFiles = removedFiles,
                    p_nodesToAdd = fmempty, p_threads = [], p_reads = [],
                    p_barrierBlock = False, p_effects = effects\<rparr>)"

text \<open>
  The hand-off: under the mutex the locals are swapped with the shared
  \<^verbatim>\<open>_nodesToRemove\<close> and \<^verbatim>\<open>_nodesToAdd\<close>, and the worker then calls
  \<^verbatim>\<open>_updatesMergedBlock.block()\<close>; with nothing to hand over it calls
  \<^verbatim>\<open>YieldCurrentThread()\<close>. The locals are dropped at the end of the call, so what the
  swap leaves in them is not returned.
\<close>

datatype Wait = UpdatesMergedBlock | YieldCurrentThread

definition hand_off :: "Files \<Rightarrow> FilenameNodeMap \<Rightarrow> MasterOperation \<Rightarrow> MasterOperation \<times> Wait" where
  "hand_off removedFiles nodesToAdd_local mo =
     (if removedFiles \<noteq> {||} \<or> nodesToAdd_local \<noteq> fmempty
      then (mo\<lparr>nodesToRemove := removedFiles, nodesToAdd := nodesToAdd_local\<rparr>, UpdatesMergedBlock)
      else (mo, YieldCurrentThread))"

definition operator_call :: "Engine \<Rightarrow> MasterOperation \<Rightarrow> Queues \<Rightarrow> (Prepared \<times> MasterOperation \<times> Wait) option" where
  "operator_call e mo queues =
     (case prepare e mo queues of
        None \<Rightarrow> None
      | Some p \<Rightarrow> Some (p, hand_off (p_removedFiles p) (p_nodesToAdd p) (mo\<lparr>barrier := p_barrier p\<rparr>)))"

section \<open>\<^verbatim>\<open>MasterOperation::update\<close>\<close>

text \<open>
  The two loops of \<^verbatim>\<open>update\<close>, each with the map and the scene as its state, and the
  body of \<^verbatim>\<open>update\<close>, all of it under the mutex. The call
  \<^verbatim>\<open>_updatesMergedBlock.release()\<close> at its end changes none of the data.
\<close>

definition remove_file :: "string \<Rightarrow> FilenameNodeMap \<times> Group \<Rightarrow> FilenameNodeMap \<times> Group" where
  "remove_file itr = (\<lambda>(existing, scene).
     case fmlookup existing itr of
       None \<Rightarrow> (existing, scene)
     | Some n \<Rightarrow> (fmdrop itr existing, removeChild scene n))"

definition add_node :: "string \<times> node \<Rightarrow> FilenameNodeMap \<times> Group \<Rightarrow> FilenameNodeMap \<times> Group" where
  "add_node itr = (\<lambda>(existing, scene).
     (fmupd (fst itr) (snd itr) existing, addChild scene (snd itr)))"

definition update :: "MasterOperation \<Rightarrow> Group \<Rightarrow> MasterOperation \<times> Group" where
  "update mo scene =
     (let (existing1, scene1) =
            (if nodesToRemove mo \<noteq> {||}
             then fold remove_file (sorted_list_of_fset (nodesToRemove mo)) (existingFilenameNodeMap mo, scene)
             else (existingFilenameNodeMap mo, scene));
          toRemove1 = (if nodesToRemove mo \<noteq> {||} then {||} else nodesToRemove mo);
          (existing2, scene2) =
            (if nodesToAdd mo \<noteq> fmempty
             then fold add_node (sorted_list_of_fmap (nodesToAdd mo)) (existing1, scene1)
             else (existing1, scene1));
          toAdd2 = (if nodesToAdd mo \<noteq> fmempty then fmempty else nodesToAdd mo)
      in (mo\<lparr>existingFilenameNodeMap := existing2, nodesToRemove := toRemove1, nodesToAdd := toAdd2\<rparr>,
          scene2))"

section \<open>The scene and the map of loaded files\<close>

text \<open>
  The values of \<^verbatim>\<open>_existingFilenameNodeMap\<close>, in the order of their keys, as a
  multiset.
\<close>

definition node_values :: "FilenameNodeMap \<Rightarrow> node multiset" where
  "node_values m = mset (map snd (sorted_list_of_fmap m))"



section \<open>\<^verbatim>\<open>FilterHandler::handle\<close>\<close>

text \<open>
  Modelled from the spec: \<^verbatim>\<open>osgGA::GUIEventAdapter\<close> and
  \<^verbatim>\<open>osgTerrain::GeometryTechnique\<close> are not part of this file. An event has a type and
  a key (an \<^verbatim>\<open>int\<close>, compared with character literals); the technique has the filter
  type its matrix was last set as, a filter width and a filter bias. The width and the
  bias are \<^verbatim>\<open>float\<close>: their values are of an arbitrary type \<open>'f\<close>, and the four arithmetic
  operations of the handler on them, with the literals \<^verbatim>\<open>1.1\<close> and \<^verbatim>\<open>0.1\<close>, are
  parameters, so that nothing is assumed about rounding.
\<close>

datatype EventType = PUSH | RELEASE | DOUBLECLICK | DRAG | MOVE | KEYDOWN | KEYUP | FRAME | RESIZE | SCROLL

record GUIEventAdapter =
  getEventType :: EventType
  getKey :: int

datatype FilterType = GAUSSIAN | SMOOTH | SHARPEN

record 'f GeometryTechnique =
  filterMatrixAs :: FilterType
  getFilterWidth :: 'f
  getFilterBias :: 'f

record 'f FloatOps =
  f_mul :: "'f \<Rightarrow> 'f \<Rightarrow> 'f"
  f_div :: "'f \<Rightarrow> 'f \<Rightarrow> 'f"
  f_add :: "'f \<Rightarrow> 'f \<Rightarrow> 'f"
  f_sub :: "'f \<Rightarrow> 'f \<Rightarrow> 'f"
  f_1_1 :: 'f
  f_0_1 :: 'f

text \<open>The \<^verbatim>\<open>int\<close> that a character literal is compared as; the literals of the handler
  are ASCII.\<close>

definition key_of :: "char \<Rightarrow> int" where
  "key_of c = of_char c"

text \<open>The handler returns its result and the technique as it leaves it; \<open>None\<close> is a
  null \<^verbatim>\<open>_gt\<close>.\<close>

definition handle :: "'f FloatOps \<Rightarrow> 'f GeometryTechnique option \<Rightarrow> GUIEventAdapter \<Rightarrow> bool \<times> 'f GeometryTechnique option" where
  "handle ops gt_ptr ea =
     (case gt_ptr of
        None \<Rightarrow> (False, None)
      | Some gt \<Rightarrow>
         (case getEventType ea of
            KEYDOWN \<Rightarrow>
              if getKey ea = key_of CHR ''g'' then (True, Some (gt\<lparr>filterMatrixAs := GAUSSIAN\<rparr>))
              else if getKey ea = key_of CHR ''s'' then (True, Some (gt\<lparr>filterMatrixAs := SMOOTH\<rparr>))
              else if getKey ea = key_of CHR ''S'' then (True, Some (gt\<lparr>filterMatrixAs := SHARPEN\<rparr>))
              else if getKey ea = key_of CHR ''+''
                then (True, Some (gt\<lparr>getFilterWidth := f_mul ops (getFilterWidth gt) (f_1_1 ops)\<rparr>))
              else if getKey ea = key_of CHR ''-''
                then (True, Some (gt\<lparr>getFilterWidth := f_div ops (getFilterWidth gt) (f_1_1 ops)\<rparr>))
              else if getKey ea = key_of CHR ''>''
                then (True, Some (gt\<lparr>getFilterBias := f_add ops (getFilterBias gt) (f_0_1 ops)\<rparr>))
              else if getKey ea = key_of CHR ''<''
                then (True, Some (gt\<lparr>getFilterBias := f_sub ops (getFilterBias gt) (f_0_1 ops)\<rparr>))
              else (False, Some gt)
          | _ \<Rightarrow> (False, Some gt)))"

text \<open>The keys the handler reacts to.\<close>

definition filter_keys :: "int set" where
  "filter_keys = key_of ` {CHR ''g'', CHR ''s'', CHR ''S'', CHR ''+'', CHR ''-'', CHR ''>'', CHR ''<''}"

section \<open>The \<^verbatim>\<open>-p\<close> arguments in \<^verbatim>\<open>main\<close>\<close>

text \<open>
  Modelled from the spec: \<^verbatim>\<open>osgGA::KeySwitchMatrixManipulator\<close>,
  \<^verbatim>\<open>osgGA::AnimationPathManipulator\<close> and \<^verbatim>\<open>osg::ArgumentParser\<close> are not part of
  this file. The key-switch manipulator is a value of an arbitrary type \<open>'ks\<close> with its
  three member functions as parameters, and so are the constructor of the animation path
  manipulator and its \<^verbatim>\<open>valid()\<close>. The arguments are the path files that the successive
  calls \<^verbatim>\<open>arguments.read("-p",pathfile)\<close> deliver. \<^verbatim>\<open>keyForAnimationPath\<close> is a
  \<^verbatim>\<open>char\<close>, an 8-bit word.
\<close>

record ('ks, 'apm) Manipulators =
  new_AnimationPathManipulator :: "string \<Rightarrow> 'apm"
  valid :: "'apm \<Rightarrow> bool"
  getNumMatrixManipulators :: "'ks \<Rightarrow> 32 word"
  addMatrixManipulator :: "8 word \<Rightarrow> string \<Rightarrow> 'apm \<Rightarrow> 'ks \<Rightarrow> 'ks"
  selectMatrixManipulator :: "32 word \<Rightarrow> 'ks \<Rightarrow> 'ks"

datatype error = NullPointerDereference

text \<open>
  The guard \<^verbatim>\<open>apm || !apm->valid()\<close>: the right operand is evaluated only when the
  pointer is null, and then it dereferences the null pointer.
\<close>

definition path_guard :: "('ks, 'apm) Manipulators \<Rightarrow> 'apm option \<Rightarrow> error + bool" where
  "path_guard m apm =
     (if apm \<noteq> None then Inr True
      else (case apm of None \<Rightarrow> Inl NullPointerDereference | Some a \<Rightarrow> Inr (\<not> valid m a)))"

fun read_paths :: "('ks, 'apm) Manipulators \<Rightarrow> string list \<Rightarrow> 'ks \<times> 8 word \<Rightarrow> error + 'ks \<times> 8 word" where
  "read_paths m [] s = Inr s"
| "read_paths m (pathfile # arguments) (keyswitchManipulator, keyForAnimationPath) =
     (let a = new_AnimationPathManipulator m pathfile in
      case path_guard m (Some a) of
        Inl err \<Rightarrow> Inl err
      | Inr taken \<Rightarrow>
          if taken
          then (let num = getNumMatrixManipulators m keyswitchManipulator;
                    ks1 = addMatrixManipulator m keyForAnimationPath ''Path'' a keyswitchManipulator;
                    ks2 = selectMatrixManipulator m num ks1
                in read_paths m arguments (ks2, keyForAnimationPath + 1))
          else read_paths m arguments (keyswitchManipulator, keyForAnimationPath))"

text \<open>What the claim describes: every path file adds a manipulator under the current
  key, selects it by the number of manipulators there were before, and moves to the next
  key.\<close>

definition add_path :: "('ks, 'apm) Manipulators \<Rightarrow> string \<Rightarrow> 'ks \<times> 8 word \<Rightarrow> 'ks \<times> 8 word" where
  "add_path m pathfile = (\<lambda>(ks, key).
     (selectMatrixManipulator m (getNumMatrixManipulators m ks)
        (addMatrixManipulator m key ''Path'' (new_AnimationPathManipulator m pathfile) ks),
      key + 1))"

section \<open>Example inputs\<close>

text \<open>
  A master file that opens and lists nothing, read with a local \<^verbatim>\<open>readFilename\<close>
  that happens to hold \<open>True\<close>.
\<close>

definition empty_master :: Engine where
  "empty_master =
     \<lparr>ifstream = (\<lambda>f. if f = ''master'' then Some [] else None),
      indeterminate = True,
      readNodeFile = (\<lambda>f. None),
      getMaxContextID = 0,
      getCompileContext = (\<lambda>i. None),
      getGraphicsThread = (\<lambda>gc. None)\<rparr>"

text \<open>
  A master file listing \<^verbatim>\<open>b.osg\<close>, \<^verbatim>\<open>c.osg\<close> and \<^verbatim>\<open>d.osg\<close>, of which
  \<^verbatim>\<open>d.osg\<close> does not load, two compile contexts with the graphics threads 20 and 21,
  and a master operation that has \<^verbatim>\<open>a.osg\<close> and \<^verbatim>\<open>b.osg\<close> in the scene.
\<close>

definition example_engine :: Engine where
  "example_engine =
     \<lparr>ifstream = (\<lambda>f. if f = ''master''
                        then Some [(WORD, ''file''), (STRING, ''b.osg''), (WORD, ''file''), (WORD, ''c.osg''),
                                   (WORD, ''file''), (WORD, ''d.osg'')]
                        else None),
      indeterminate = False,
      readNodeFile = (\<lambda>f. if f = ''b.osg'' then Some 2 else if f = ''c.osg'' then Some 3 else None),
      getMaxContextID = 1,
      getCompileContext = (\<lambda>i. if i = 0 then Some 10 else if i = 1 then Some 11 else None),
      getGraphicsThread = (\<lambda>gc. if gc = 10 then Some 20 else if gc = 11 then Some 21 else None)\<rparr>"

definition example_mo :: MasterOperation where
  "example_mo =
     \<lparr>filename = ''master'',
      existingFilenameNodeMap = fmupd ''a.osg'' 1 (fmupd ''b.osg'' 2 fmempty),
      nodesToRemove = {||}, nodesToAdd = fmempty, barrier = None\<rparr>"

definition example_queues :: Queues where
  "example_queues = (\<lambda>gt. [])"

text \<open>
  A master operation with a pending hand-over (remove \<^verbatim>\<open>a.osg\<close> and a file that is
  not in the scene, add \<^verbatim>\<open>c.osg\<close>) and a scene that holds a terrain node 9 besides the
  two loaded models.
\<close>

definition example_pending :: MasterOperation where
  "example_pending =
     \<lparr>filename = ''master'',
      existingFilenameNodeMap = fmupd ''a.osg'' 1 (fmupd ''b.osg'' 2 fmempty),
      nodesToRemove = {|''a.osg'', ''z.osg''|}, nodesToAdd = fmupd ''c.osg'' 3 fmempty, barrier = Some 3\<rparr>"

definition example_scene :: Group where
  "example_scene = [9, 1, 2]"





text \<open>
  A hand-over that does not come from a diff against the current map: \<^verbatim>\<open>c.osg\<close> is
  in the scene as node 3 and is pending again as node 7.
\<close>

definition example_stale :: MasterOperation where
  "example_stale =
     \<lparr>filename = ''master'',
      existingFilenameNodeMap = fmupd ''c.osg'' 3 fmempty,
      nodesToRemove = {||}, nodesToAdd = fmupd ''c.osg'' 7 fmempty, barrier = None\<rparr>"

text \<open>
  The arithmetic of the handler on real numbers, for a technique whose width is 1, and
  a key-switch manipulator that keeps its entries in the order they were added, with an
  animation path manipulator that is never valid.
\<close>

definition real_ops :: "real FloatOps" where
  "real_ops = \<lparr>f_mul = (*), f_div = (/), f_add = (+), f_sub = (-), f_1_1 = 11 / 10, f_0_1 = 1 / 10\<rparr>"

definition example_manipulators :: "((8 word \<times> string \<times> string) list \<times> 32 word, string) Manipulators" where
  "example_manipulators =
     \<lparr>new_AnimationPathManipulator = (\<lambda>pathfile. pathfile),
      valid = (\<lambda>apm. False),
      getNumMatrixManipulators = (\<lambda>ks. of_nat (length (fst ks))),
      addMatrixManipulator = (\<lambda>key name apm ks. (fst ks @ [(key, name, apm)], snd ks)),
      selectMatrixManipulator = (\<lambda>num ks. (fst ks, num))\<rparr>"

section \<open>Properties of the master file reader\<close>

lemma read_fields_eq:
  "read_fields fs rf files = (rf \<or> file_entries fs \<noteq> [], files |\<union>| fset_of_list (file_entries fs))"
  by (induction fs rf files rule: read_fields.induct) auto

lemma readMasterFile_unopened: "ifstream e fname = None \<Longrightarrow> readMasterFile e fname files = (False, files)"
  by (simp add: readMasterFile_def)

lemma readMasterFile_opened:
  "ifstream e fname = Some fin \<Longrightarrow>
   readMasterFile e fname files =
     (indeterminate e \<or> file_entries fin \<noteq> [], files |\<union>| fset_of_list (file_entries fin))"
  by (simp add: readMasterFile_def read_fields_eq)

lemma readMasterFile_files:
  "snd (readMasterFile e fname files) =
     (case ifstream e fname of None \<Rightarrow> files | Some fin \<Rightarrow> files |\<union>| fset_of_list (file_entries fin))"
  by (simp add: readMasterFile_def read_fields_eq split: option.splits)

section \<open>Iteration over the sets and maps\<close>

lemma distinct_sorted_list_of_fset: "distinct (sorted_list_of_fset S)"
  by (simp add: sorted_list_of_fset.rep_eq)

lemma sorted_list_of_fset_empty: "sorted_list_of_fset {||} = []"
  by (simp add: sorted_list_of_fset.rep_eq)

lemma sorted_list_of_fset_finsert:
  "sorted_list_of_fset (finsert x S) =
     (if x |\<in>| S then sorted_list_of_fset S else insort x (sorted_list_of_fset S))"
proof (cases "x |\<in>| S")
  case True
  then show ?thesis by (simp add: finsert_absorb)
next
  case False
  then have "fset S - {x} = fset S" by auto
  with False show ?thesis by (simp add: sorted_list_of_fset.rep_eq)
qed


lemma map_fst_sorted_list_of_fmap: "map fst (sorted_list_of_fmap m) = sorted_list_of_fset (fmdom m)"
  by (simp add: sorted_list_of_fmap_def comp_def)

lemma distinct_keys_sorted_list_of_fmap: "distinct (map fst (sorted_list_of_fmap m))"
  by (simp add: map_fst_sorted_list_of_fmap distinct_sorted_list_of_fset)

lemma sorted_list_of_fmap_empty: "sorted_list_of_fmap fmempty = []"
  by (simp add: sorted_list_of_fmap_def sorted_list_of_fset_empty)

lemma sorted_list_of_fmap_fmupd_fresh_empty: "sorted_list_of_fmap (fmupd k v fmempty) = [(k, v)]"
  by (simp add: sorted_list_of_fmap_def sorted_list_of_fset_finsert sorted_list_of_fset_empty)

lemma fminus_fsubset: "A |\<subseteq>| B \<Longrightarrow> A |-| B = {||}"
  by auto

lemma fmdrop_absent: "fmlookup ex f = None \<Longrightarrow> fmdrop f (fmdrop_fset S ex) = fmdrop_fset S ex"
  by (rule fmap_ext) auto

lemma fmdrop_fset_fmdrop: "fmdrop_fset S (fmdrop f ex) = fmdrop f (fmdrop_fset S ex)"
  by (rule fmap_ext) auto

section \<open>Properties of the diff, the thread discovery and the loading loop\<close>

lemma length_sorted_list_of_fset: "length (sorted_list_of_fset S) = fcard S"
  by (simp add: sorted_list_of_fset.rep_eq fcard.rep_eq)

lemma fold_find_new:
  "fold (\<lambda>fitr (newFiles, es).
           (if fitr |\<notin>| D then finsert fitr newFiles else newFiles, es @ [Read ExistingFilenameNodeMap]))
     xs (acc, effects)
     = (acc |\<union>| (fset_of_list xs |-| D), effects @ replicate (length xs) (Read ExistingFilenameNodeMap))"
  by (induction xs arbitrary: acc effects) (auto simp: replicate_app_Cons_same)

lemma find_new_eq:
  "find_new files existing effects =
     (files |-| fmdom existing, effects @ replicate (fcard files) (Read ExistingFilenameNodeMap))"
  by (simp add: find_new_def fold_find_new length_sorted_list_of_fset)

lemma fold_find_removed:
  "fold (\<lambda>litr (removedFiles, es).
           (if fst litr |\<notin>| files then finsert (fst litr) removedFiles else removedFiles,
            es @ [Read ExistingFilenameNodeMap]))
     xs (acc, effects)
     = (acc |\<union>| (fset_of_list (map fst xs) |-| files),
        effects @ replicate (length xs) (Read ExistingFilenameNodeMap))"
  by (induction xs arbitrary: acc effects) (auto simp: replicate_app_Cons_same)

lemma length_sorted_list_of_fmap: "length (sorted_list_of_fmap m) = fcard (fmdom m)"
  by (simp add: sorted_list_of_fmap_def length_sorted_list_of_fset)

lemma find_removed_eq:
  "find_removed files existing effects =
     (fmdom existing |-| files, effects @ replicate (fcard (fmdom existing)) (Read ExistingFilenameNodeMap))"
  by (simp add: find_removed_def fold_find_removed map_fst_sorted_list_of_fmap length_sorted_list_of_fmap)

lemma find_new_and_removed_eq:
  "find_new_and_removed files existing =
     (files |-| fmdom existing, fmdom existing |-| files, diff_effects files existing)"
  by (simp add: find_new_and_removed_def find_new_eq find_removed_eq diff_effects_def replicate_add)

lemma guarded_reads: "guarded True (replicate n (Read m) @ effects) = guarded True effects"
  by (induction n) simp_all

lemma guarded_diff_effects: "guarded False (diff_effects files existing)"
  by (simp add: diff_effects_def guarded_reads)

lemma compile_threads_Some_bounded:
  "compile_threads e i acc = Some r \<Longrightarrow> getMaxContextID e \<noteq> - 1"
proof (induction arbitrary: r rule: compile_threads.raw_induct[rotated 1, consumes 1])
  case (1 f e i threads r)
  show ?case
  proof (cases "i \<le> getMaxContextID e")
    case True
    with 1 show ?thesis by simp
  next
    case False
    then show ?thesis by auto
  qed
qed

lemma unat_succ: "(i::32 word) \<noteq> - 1 \<Longrightarrow> unat (i + 1) = Suc (unat i)"
proof -
  assume "i \<noteq> - 1"
  then have "1 + i \<noteq> 0" using max_word_wrap[of i] by (auto simp: add.commute)
  then have "unat (1 + i) = Suc (unat i)" by (rule unatSuc)
  then show ?thesis by (simp add: add.commute)
qed

lemma compile_threads_from:
  "i \<le> getMaxContextID e \<Longrightarrow> getMaxContextID e \<noteq> - 1 \<Longrightarrow>
   compile_threads e i acc =
     Some (acc @ List.map_filter (graphics_thread e) (map of_nat [unat i ..< Suc (unat (getMaxContextID e))]))"
proof (induction "unat (getMaxContextID e) - unat i" arbitrary: i acc)
  case 0
  then have eq: "i = getMaxContextID e" by (simp add: word_le_nat_alt word_unat_eq_iff)
  have nle: "\<not> i + 1 \<le> getMaxContextID e"
    using "0.prems"(2) eq unat_succ[of i] by (simp add: word_le_nat_alt)
  show ?case
    apply (subst compile_threads.simps)
    apply (simp add: "0.prems"(1))
    apply (subst compile_threads.simps)
    apply (simp add: nle)
    apply (simp add: eq[symmetric] List.map_filter_def split: option.splits)
    done
next
  case (Suc n)
  then have lt: "unat i < unat (getMaxContextID e)" by simp
  then have ne: "i \<noteq> - 1" using Suc.prems(2)
    by (metis word_le_nat_alt word_order.extremum leD le_less word_unat_eq_iff)
  have su: "unat (i + 1) = Suc (unat i)" using ne by (rule unat_succ)
  have le1: "i + 1 \<le> getMaxContextID e" using lt su by (simp add: word_le_nat_alt)
  have n: "n = unat (getMaxContextID e) - unat (i + 1)" using Suc.hyps(2) su by simp
  have up: "[unat i ..< Suc (unat (getMaxContextID e))] = unat i # [unat (i + 1) ..< Suc (unat (getMaxContextID e))]"
    using lt su by (simp add: upt_conv_Cons)
  show ?case
    apply (subst compile_threads.simps)
    apply (simp add: Suc.prems(1) Suc.hyps(1)[OF n le1 Suc.prems(2)] up del: upt_Suc)
    apply (simp add: List.map_filter_def split: option.splits)
    done
qed

lemma compile_threads_eq:
  "getMaxContextID e \<noteq> - 1 \<Longrightarrow> compile_threads e 0 [] = Some (discovered_threads e)"
  by (simp add: compile_threads_from discovered_threads_def context_ids_def)

lemma compile_threads_None:
  "getMaxContextID e = - 1 \<Longrightarrow> compile_threads e 0 [] = None"
  using compile_threads_Some_bounded[of e 0 "[]"] by (cases "compile_threads e 0 []") auto

lemma fold_add_queue:
  "fold (\<lambda>gitr q. add q gitr operation) threads q gt = q gt @ replicate (count_list threads gt) operation"
  by (induction threads arbitrary: q) (auto simp: add_def replicate_app_Cons_same)

lemma fold_add_compile_queues:
  "l_queues (fold (add_compile operation) threads s) gt
     = l_queues s gt @ replicate (count_list threads gt) operation"
  by (induction threads arbitrary: s) (auto simp: add_compile_def add_def replicate_app_Cons_same)

lemma fold_add_compile_requiresBarrier:
  "l_requiresBarrier (fold (add_compile operation) threads s) = (l_requiresBarrier s \<or> threads \<noteq> [])"
  by (induction threads arbitrary: s) (auto simp: add_compile_def)

lemma fold_add_compile_nodesToAdd:
  "l_nodesToAdd (fold (add_compile operation) threads s) = l_nodesToAdd s"
  by (induction threads arbitrary: s) (auto simp: add_compile_def)

lemma fold_add_compile_reads:
  "l_reads (fold (add_compile operation) threads s) = l_reads s"
  by (induction threads arbitrary: s) (auto simp: add_compile_def)

lemmas fold_add_compile =
  fold_add_compile_queues fold_add_compile_requiresBarrier fold_add_compile_nodesToAdd fold_add_compile_reads

lemma fold_load_file_reads:
  "l_reads (fold (load_file e threads) fs s) = l_reads s @ fs"
  by (induction fs arbitrary: s) (auto simp: load_file_def Let_def fold_add_compile split: option.splits)

lemma fold_load_file_nodesToAdd:
  "fmlookup (l_nodesToAdd (fold (load_file e threads) fs s)) f
     = (if f \<in> set fs \<and> readNodeFile e f \<noteq> None then readNodeFile e f else fmlookup (l_nodesToAdd s) f)"
  by (induction fs arbitrary: s) (auto simp: load_file_def Let_def fold_add_compile split: option.splits)

lemma fold_load_file_queues:
  "l_queues (fold (load_file e threads) fs s) gt = l_queues s gt @ compile_operations e threads fs gt"
  by (induction fs arbitrary: s)
     (auto simp: load_file_def Let_def fold_add_compile compile_operations_def split: option.splits)

lemma fold_load_file_requiresBarrier:
  "l_requiresBarrier (fold (load_file e threads) fs s)
     = (l_requiresBarrier s \<or> (threads \<noteq> [] \<and> (\<exists>f \<in> set fs. readNodeFile e f \<noteq> None)))"
  by (induction fs arbitrary: s)
     (auto simp: load_file_def Let_def fold_add_compile split: option.splits)

lemmas fold_load_file =
  fold_load_file_reads fold_load_file_nodesToAdd fold_load_file_queues fold_load_file_requiresBarrier

lemma load_new_files_fields:
  "p_files (load_new_files e mo q files newFiles removedFiles effects threads) = files"
  "p_newFiles (load_new_files e mo q files newFiles removedFiles effects threads) = newFiles"
  "p_removedFiles (load_new_files e mo q files newFiles removedFiles effects threads) = removedFiles"
  "p_threads (load_new_files e mo q files newFiles removedFiles effects threads) = threads"
  "p_reads (load_new_files e mo q files newFiles removedFiles effects threads) = sorted_list_of_fset newFiles"
  "p_effects (load_new_files e mo q files newFiles removedFiles effects threads) = effects"
  by (simp_all add: load_new_files_def Let_def fold_load_file)

lemma load_new_files_nodesToAdd:
  "fmlookup (p_nodesToAdd (load_new_files e mo q files newFiles removedFiles effects threads)) f
     = (if f |\<in>| newFiles then readNodeFile e f else None)"
  by (cases "readNodeFile e f") (simp_all add: load_new_files_def Let_def fold_load_file)

lemma load_new_files_barrierBlock:
  "p_barrierBlock (load_new_files e mo q files newFiles removedFiles effects threads)
     = (threads \<noteq> [] \<and> (\<exists>f. f |\<in>| newFiles \<and> readNodeFile e f \<noteq> None))"
  by (auto simp add: load_new_files_def Let_def fold_load_file)


lemma load_new_files_queues:
  "p_queues (load_new_files e mo q files newFiles removedFiles effects threads) gt
     = q gt @ compile_operations e threads (sorted_list_of_fset newFiles) gt
         @ (if threads \<noteq> [] \<and> (\<exists>f. f |\<in>| newFiles \<and> readNodeFile e f \<noteq> None)
            then replicate (count_list threads gt) (BarrierOperation (length threads + 1)) else [])"
  by (auto simp add: load_new_files_def Let_def fold_load_file fold_add_queue)

section \<open>Properties of \<^verbatim>\<open>operator()\<close> up to the hand-off\<close>

lemma prepare_returns:
  assumes "snd (readMasterFile e (filename mo) {||}) |\<subseteq>| fmdom (existingFilenameNodeMap mo)
           \<or> getMaxContextID e \<noteq> - 1"
  shows "\<exists>p. prepare e mo queues = Some p"
  using assms
  by (cases "getMaxContextID e = - 1")
     (auto simp: prepare_def Let_def find_new_and_removed_eq compile_threads_eq)

lemma prepare_diverges:
  assumes "\<not> (snd (readMasterFile e (filename mo) {||}) |\<subseteq>| fmdom (existingFilenameNodeMap mo))"
      and "getMaxContextID e = - 1"
  shows "prepare e mo queues = None"
  using assms by (auto simp: prepare_def Let_def find_new_and_removed_eq compile_threads_None)

lemma prepare_cases:
  assumes "prepare e mo queues = Some p"
  obtains
    (idle) "snd (readMasterFile e (filename mo) {||}) |-| fmdom (existingFilenameNodeMap mo) = {||}"
      "p = \<lparr>p_barrier = barrier mo, p_queues = queues,
             p_files = snd (readMasterFile e (filename mo) {||}),
             p_newFiles = {||},
             p_removedFiles = fmdom (existingFilenameNodeMap mo) |-| snd (readMasterFile e (filename mo) {||}),
             p_nodesToAdd = fmempty, p_threads = [], p_reads = [], p_barrierBlock = False,
             p_effects = diff_effects (snd (readMasterFile e (filename mo) {||})) (existingFilenameNodeMap mo)\<rparr>"
  | (load) "snd (readMasterFile e (filename mo) {||}) |-| fmdom (existingFilenameNodeMap mo) \<noteq> {||}"
      "getMaxContextID e \<noteq> - 1"
      "p = load_new_files e mo queues (snd (readMasterFile e (filename mo) {||}))
             (snd (readMasterFile e (filename mo) {||}) |-| fmdom (existingFilenameNodeMap mo))
             (fmdom (existingFilenameNodeMap mo) |-| snd (readMasterFile e (filename mo) {||}))
             (diff_effects (snd (readMasterFile e (filename mo) {||})) (existingFilenameNodeMap mo))
             (discovered_threads e)"
proof (cases "snd (readMasterFile e (filename mo) {||}) |-| fmdom (existingFilenameNodeMap mo) = {||}")
  case True
  with assms show ?thesis
    by (intro idle) (auto simp add: prepare_def Let_def find_new_and_removed_eq fminus_fsubset)
next
  case False
  with assms obtain threads where t: "compile_threads e 0 [] = Some threads"
    by (auto simp: prepare_def Let_def find_new_and_removed_eq split: option.splits)
  then have b: "getMaxContextID e \<noteq> - 1" by (rule compile_threads_Some_bounded)
  with t have "threads = discovered_threads e" by (simp add: compile_threads_eq)
  with assms False t b show ?thesis
    by (intro load) (simp_all add: prepare_def Let_def find_new_and_removed_eq)
qed

lemma prepare_files:
  assumes "prepare e mo queues = Some p"
  shows "p_files p = snd (readMasterFile e (filename mo) {||})"
  using assms by (cases rule: prepare_cases) (auto simp add: load_new_files_fields fminus_fsubset)

lemma prepare_newFiles:
  assumes "prepare e mo queues = Some p"
  shows "p_newFiles p = p_files p |-| fmdom (existingFilenameNodeMap mo)"
  using assms by (cases rule: prepare_cases) (auto simp add: load_new_files_fields fminus_fsubset)

lemma prepare_removedFiles:
  assumes "prepare e mo queues = Some p"
  shows "p_removedFiles p = fmdom (existingFilenameNodeMap mo) |-| p_files p"
  using assms by (cases rule: prepare_cases) (auto simp add: load_new_files_fields fminus_fsubset)

lemma prepare_effects:
  assumes "prepare e mo queues = Some p"
  shows "p_effects p = diff_effects (p_files p) (existingFilenameNodeMap mo)"
  using assms by (cases rule: prepare_cases) (auto simp add: load_new_files_fields)

lemma prepare_reads:
  assumes "prepare e mo queues = Some p"
  shows "p_reads p = sorted_list_of_fset (p_newFiles p)"
  using assms by (cases rule: prepare_cases) (auto simp add: load_new_files_fields sorted_list_of_fset_empty fminus_fsubset)

lemma prepare_threads:
  assumes "prepare e mo queues = Some p" and "p_newFiles p \<noteq> {||}"
  shows "p_threads p = discovered_threads e"
  using assms by (cases rule: prepare_cases) (auto simp add: load_new_files_fields fminus_fsubset)

lemma prepare_nodesToAdd:
  assumes "prepare e mo queues = Some p"
  shows "fmlookup (p_nodesToAdd p) f = (if f |\<in>| p_newFiles p then readNodeFile e f else None)"
  using assms
  by (cases rule: prepare_cases) (auto simp add: load_new_files_fields load_new_files_nodesToAdd)

lemma prepare_nodesToAdd_dom:
  assumes "prepare e mo queues = Some p"
  shows "fmdom (p_nodesToAdd p) = ffilter (\<lambda>f. readNodeFile e f \<noteq> None) (p_newFiles p)"
  by (rule fset_eqI) (auto simp: fmlookup_dom_iff prepare_nodesToAdd[OF assms])


lemma prepare_barrierBlock:
  assumes "prepare e mo queues = Some p"
  shows "p_barrierBlock p = (p_threads p \<noteq> [] \<and> (\<exists>f. f |\<in>| p_newFiles p \<and> readNodeFile e f \<noteq> None))"
  using assms
  by (cases rule: prepare_cases) (auto simp add: load_new_files_fields load_new_files_barrierBlock)


lemma prepare_queues:
  assumes "prepare e mo queues = Some p"
  shows "p_queues p gt =
           queues gt @ compile_operations e (p_threads p) (sorted_list_of_fset (p_newFiles p)) gt
             @ (if p_barrierBlock p
                then replicate (count_list (p_threads p) gt) (BarrierOperation (length (p_threads p) + 1))
                else [])"
  using assms
  by (cases rule: prepare_cases)
     (auto simp add: load_new_files_fields load_new_files_barrierBlock load_new_files_queues
        compile_operations_def sorted_list_of_fset_empty)

lemma operator_call_Some:
  "operator_call e mo queues = Some (p, mo', w) \<longleftrightarrow>
     prepare e mo queues = Some p \<and>
     (mo', w) = hand_off (p_removedFiles p) (p_nodesToAdd p) (mo\<lparr>barrier := p_barrier p\<rparr>)"
  by (auto simp: operator_call_def split: option.splits)

lemma operator_call_returns:
  assumes "snd (readMasterFile e (filename mo) {||}) |\<subseteq>| fmdom (existingFilenameNodeMap mo)
           \<or> getMaxContextID e \<noteq> - 1"
  obtains p mo' w where "prepare e mo queues = Some p"
    and "hand_off (p_removedFiles p) (p_nodesToAdd p) (mo\<lparr>barrier := p_barrier p\<rparr>) = (mo', w)"
    and "operator_call e mo queues = Some (p, mo', w)"
proof -
  from assms obtain p where p: "prepare e mo queues = Some p"
    using prepare_returns by blast
  obtain mo' w where h: "hand_off (p_removedFiles p) (p_nodesToAdd p) (mo\<lparr>barrier := p_barrier p\<rparr>) = (mo', w)"
    by (cases "hand_off (p_removedFiles p) (p_nodesToAdd p) (mo\<lparr>barrier := p_barrier p\<rparr>)")
  from p h have "operator_call e mo queues = Some (p, mo', w)"
    by (simp add: operator_call_def)
  with p h show ?thesis by (rule that)
qed

section \<open>Properties of \<^verbatim>\<open>update\<close>\<close>

lemma fold_remove_file:
  "distinct fs \<Longrightarrow>
   fold remove_file fs (ex, sc) =
     (fmdrop_fset (fset_of_list fs) ex, fold (\<lambda>n s. removeChild s n) (List.map_filter (fmlookup ex) fs) sc)"
proof (induction fs arbitrary: ex sc)
  case Nil
  then show ?case by (simp add:)
next
  case (Cons f fs)
  have same: "List.map_filter (fmlookup (fmdrop f ex)) fs = List.map_filter (fmlookup ex) fs"
    using Cons.prems by (auto simp: List.map_filter_def intro!: arg_cong[where f="map _"] filter_cong map_cong)
  show ?case
  proof (cases "fmlookup ex f")
    case None
    with Cons show ?thesis by (simp add: remove_file_def fmdrop_absent)
  next
    case (Some n)
    with Cons same show ?thesis by (simp add: remove_file_def fmdrop_fset_fmdrop)
  qed
qed

lemma fold_add_node:
  "fold add_node xs (ex, sc) = (fold (\<lambda>kv m. fmupd (fst kv) (snd kv) m) xs ex, sc @ map snd xs)"
  by (induction xs arbitrary: ex sc) (auto simp: add_node_def addChild_def)

lemma fold_fmupd_lookup_distinct:
  "distinct (map fst xs) \<Longrightarrow>
   fmlookup (fold (\<lambda>kv m. fmupd (fst kv) (snd kv) m) xs ex) k =
     (case map_of xs k of Some n \<Rightarrow> Some n | None \<Rightarrow> fmlookup ex k)"
proof (induction xs arbitrary: ex)
  case Nil
  then show ?case by simp
next
  case (Cons x xs)
  then have "map_of xs (fst x) = None" by (simp add: map_of_eq_None_iff)
  with Cons show ?case by (cases x) (auto split: option.splits)
qed

lemma fold_fmupd_sorted_list_of_fmap:
  "fold (\<lambda>kv m. fmupd (fst kv) (snd kv) m) (sorted_list_of_fmap a) ex = ex ++\<^sub>f a"
proof (rule fmap_ext)
  fix k
  show "fmlookup (fold (\<lambda>kv m. fmupd (fst kv) (snd kv) m) (sorted_list_of_fmap a) ex) k
               = fmlookup (ex ++\<^sub>f a) k"
    by (auto simp: fold_fmupd_lookup_distinct distinct_keys_sorted_list_of_fmap fmlookup_dom_iff
          split: option.splits)
qed

lemma fold_addChild: "fold (\<lambda>n s. addChild s n) ns scene = scene @ ns"
  by (induction ns arbitrary: scene) (auto simp: addChild_def)

lemma update_eq:
  "update mo scene =
     (mo\<lparr>existingFilenameNodeMap :=
           fmdrop_fset (nodesToRemove mo) (existingFilenameNodeMap mo) ++\<^sub>f nodesToAdd mo,
         nodesToRemove := {||},
         nodesToAdd := fmempty\<rparr>,
      fold (\<lambda>n s. addChild s n) (map snd (sorted_list_of_fmap (nodesToAdd mo)))
        (fold (\<lambda>n s. removeChild s n)
           (List.map_filter (fmlookup (existingFilenameNodeMap mo)) (sorted_list_of_fset (nodesToRemove mo)))
           scene))"
proof -
  have rem: "fold remove_file (sorted_list_of_fset (nodesToRemove mo)) (existingFilenameNodeMap mo, scene)
      = (fmdrop_fset (nodesToRemove mo) (existingFilenameNodeMap mo),
         fold (\<lambda>n s. removeChild s n)
           (List.map_filter (fmlookup (existingFilenameNodeMap mo)) (sorted_list_of_fset (nodesToRemove mo)))
           scene)"
    by (simp add: fold_remove_file distinct_sorted_list_of_fset)
  show ?thesis
  proof (cases "nodesToRemove mo = {||}")
    case True
    show ?thesis
    proof (cases "nodesToAdd mo = fmempty")
      case e: True
      with True show ?thesis
        by (simp add: update_def sorted_list_of_fset_empty sorted_list_of_fmap_empty)
    next
      case False
      with True show ?thesis
        by (simp add: update_def sorted_list_of_fset_empty fold_add_node fold_fmupd_sorted_list_of_fmap fold_addChild)
    qed
  next
    case False
    show ?thesis
    proof (cases "nodesToAdd mo = fmempty")
      case True
      with False show ?thesis
        by (simp add: update_def rem sorted_list_of_fmap_empty)
    next
      case f: False
      with False show ?thesis
        by (simp add: update_def rem fold_add_node fold_fmupd_sorted_list_of_fmap fold_addChild)
    qed
  qed
qed

section \<open>Properties of the scene and the map\<close>



















text \<open>
  Handed a node for a filename that is already a key, \<^verbatim>\<open>update\<close> overwrites the entry
  and adds the new node: the old node stays a child of the scene and is the value of no
  key.
\<close>

lemma update_stale_hand_over:
  "(case update example_stale [9, 3] of (mo', scene') \<Rightarrow>
      scene' = [9, 3, 7] \<and> node_values (existingFilenameNodeMap mo') = {#7#})"
  unfolding update_eq
  by (simp add: example_stale_def sorted_list_of_fmap_fmupd_fresh_empty sorted_list_of_fset_empty
        List.map_filter_def addChild_def node_values_def)

section \<open>Evaluation of the examples\<close>

lemma example_files:
  "snd (readMasterFile example_engine (filename example_mo) {||}) = {|''b.osg'', ''c.osg'', ''d.osg''|}"
  by (auto simp add: readMasterFile_files example_engine_def example_mo_def isWord_def isQuotedString_def matchWord_def getStr_def)

lemma example_new: "{|''b.osg'', ''c.osg'', ''d.osg''|} |-| fmdom (existingFilenameNodeMap example_mo) = {|''c.osg'', ''d.osg''|}"
  by (auto simp: example_mo_def)

lemma example_removed:
  "fmdom (existingFilenameNodeMap example_mo) |-| {|''b.osg'', ''c.osg'', ''d.osg''|} = {|''a.osg''|}"
  by (auto simp: example_mo_def)

lemma example_threads: "discovered_threads example_engine = [20, 21]"
  by (simp add: discovered_threads_def context_ids_def example_engine_def graphics_thread_def
        List.map_filter_def)

lemma example_prepare:
  assumes "prepare example_engine example_mo example_queues = Some p"
  shows "p_newFiles p = {|''c.osg'', ''d.osg''|}" and "p_threads p = [20, 21]" and "p_barrierBlock p"
proof -
  show n: "p_newFiles p = {|''c.osg'', ''d.osg''|}"
    using prepare_newFiles[OF assms] prepare_files[OF assms] by (simp add: example_files example_new)
  then show t: "p_threads p = [20, 21]"
    using prepare_threads[OF assms] by (simp add: example_threads)
  have "readNodeFile example_engine ''c.osg'' \<noteq> None" by (simp add: example_engine_def)
  with n t show "p_barrierBlock p"
    unfolding prepare_barrierBlock[OF assms] by auto
qed



lemma example_fcards:
  "fcard {|''b.osg'', ''c.osg'', ''d.osg''|} = 3" "fcard (fmdom (existingFilenameNodeMap example_mo)) = 2"
  by (simp_all add: example_mo_def fcard_finsert_if)







section \<open>The claim about \<^verbatim>\<open>readMasterFile\<close>\<close>

text \<open>
  C8. The claim: \<^verbatim>\<open>readMasterFile(files)\<close> returns false and leaves \<^verbatim>\<open>files\<close> unchanged
  when the file cannot be opened, and otherwise returns true if and only if at least one
  \<^verbatim>\<open>file <name>\<close> entry was parsed. The first half holds (\<open>readMasterFile_unopened\<close>), and
  so does the insertion of every parsed name (\<open>readMasterFile_opened\<close>). The second half
  fails: \<^verbatim>\<open>readFilename\<close> is declared without an initial value and is only ever
  assigned \<^verbatim>\<open>true\<close>, so for a file that opens and has no entry the function returns
  whatever the local holds. Here the file is empty, no entry is parsed, the local holds
  \<open>True\<close>, and the function returns \<open>True\<close>.
\<close>

theorem readMasterFile_no_entry_returns_indeterminate:
  "file_entries [] = [] \<and> readMasterFile empty_master ''master'' {||} = (True, {||})"
  by (simp add: readMasterFile_def empty_master_def)

section \<open>The claims about \<^verbatim>\<open>operator()\<close>\<close>

text \<open>
  C1. Every polling cycle that returns (one that finds a new file returns unless the
  largest context ID is the largest \<^verbatim>\<open>unsigned int\<close>) has as \<^verbatim>\<open>newFiles\<close> exactly the
  filenames read from the master file that are not keys of
  \<^verbatim>\<open>_existingFilenameNodeMap\<close>; it passes exactly these to \<^verbatim>\<open>osgDB::readNodeFile\<close>,
  each once and in the order of the set; and \<^verbatim>\<open>nodesToAdd\<close> maps every one of them
  that loads to its loaded node and holds nothing else.
\<close>

theorem operator_loads_new_files:
  assumes "snd (readMasterFile e (filename mo) {||}) |\<subseteq>| fmdom (existingFilenameNodeMap mo)
           \<or> getMaxContextID e \<noteq> - 1"
  shows "\<exists>p mo' w. operator_call e mo queues = Some (p, mo', w) \<and>
           p_files p = snd (readMasterFile e (filename mo) {||}) \<and>
           p_newFiles p = p_files p |-| fmdom (existingFilenameNodeMap mo) \<and>
           p_reads p = sorted_list_of_fset (p_newFiles p) \<and>
           (\<forall>f. fmlookup (p_nodesToAdd p) f = (if f |\<in>| p_newFiles p then readNodeFile e f else None))"
proof -
  from assms obtain p where p: "prepare e mo queues = Some p"
    using prepare_returns by blast
  obtain mo' w where h: "hand_off (p_removedFiles p) (p_nodesToAdd p) (mo\<lparr>barrier := p_barrier p\<rparr>) = (mo', w)"
    by (cases "hand_off (p_removedFiles p) (p_nodesToAdd p) (mo\<lparr>barrier := p_barrier p\<rparr>)")
  from p h have "operator_call e mo queues = Some (p, mo', w)"
    by (simp add: operator_call_def)
  with p show ?thesis
    using prepare_files[OF p] prepare_newFiles[OF p] prepare_reads[OF p] prepare_nodesToAdd[OF p]
    by blast
qed

theorem operator_loads_new_files_witness:
  "\<exists>p mo' w. operator_call example_engine example_mo example_queues = Some (p, mo', w) \<and>
      p_newFiles p = {|''c.osg'', ''d.osg''|} \<and>
      p_reads p = [''c.osg'', ''d.osg''] \<and>
      fmlookup (p_nodesToAdd p) ''c.osg'' = Some 3 \<and>
      fmlookup (p_nodesToAdd p) ''d.osg'' = None \<and>
      fmlookup (p_nodesToAdd p) ''b.osg'' = None"
proof -
  have "getMaxContextID example_engine \<noteq> - 1" by (simp add: example_engine_def)
  from operator_loads_new_files[of example_engine example_mo example_queues, OF disjI2, OF this]
  obtain p mo' w where a: "operator_call example_engine example_mo example_queues = Some (p, mo', w)"
      "p_files p = snd (readMasterFile example_engine (filename example_mo) {||})"
      "p_newFiles p = p_files p |-| fmdom (existingFilenameNodeMap example_mo)"
      "p_reads p = sorted_list_of_fset (p_newFiles p)"
      "\<And>f. fmlookup (p_nodesToAdd p) f = (if f |\<in>| p_newFiles p then readNodeFile example_engine f else None)"
    by blast
  from a(2,3) have n: "p_newFiles p = {|''c.osg'', ''d.osg''|}" by (simp add: example_files example_new)
  have r: "p_reads p = [''c.osg'', ''d.osg'']" by (simp add: a(4) n sorted_list_of_fset_finsert sorted_list_of_fset_empty)
  show ?thesis
    using a(1) n r by (auto simp add: a(5) example_engine_def)
qed

text \<open>
  C3. In every polling cycle that returns, the diff is computed under the mutex: what the
  cycle does to the mutex and the shared members before the hand-off is to lock the
  mutex, to read \<^verbatim>\<open>_existingFilenameNodeMap\<close> once for every filename read from the
  master file and once for every entry of the map, and to unlock the mutex, so that
  every one of these reads happens while the mutex is held. And \<^verbatim>\<open>removedFiles\<close> is
  exactly the set of keys of \<^verbatim>\<open>_existingFilenameNodeMap\<close> that are not among the
  filenames read from the master file.
\<close>

theorem operator_diff_under_mutex:
  assumes "snd (readMasterFile e (filename mo) {||}) |\<subseteq>| fmdom (existingFilenameNodeMap mo)
           \<or> getMaxContextID e \<noteq> - 1"
  shows "\<exists>p mo' w. operator_call e mo queues = Some (p, mo', w) \<and>
           p_files p = snd (readMasterFile e (filename mo) {||}) \<and>
           p_removedFiles p = fmdom (existingFilenameNodeMap mo) |-| p_files p \<and>
           p_effects p =
             Lock # replicate (fcard (p_files p) + fcard (fmdom (existingFilenameNodeMap mo)))
                      (Read ExistingFilenameNodeMap) @ [Unlock] \<and>
           guarded False (p_effects p)"
proof -
  from assms obtain p mo' w where p: "prepare e mo queues = Some p"
    and c: "operator_call e mo queues = Some (p, mo', w)"
    by (rule operator_call_returns)
  have "guarded False (p_effects p)"
    unfolding prepare_effects[OF p] by (rule guarded_diff_effects)
  with c prepare_files[OF p] prepare_removedFiles[OF p] prepare_effects[OF p] show ?thesis
    unfolding diff_effects_def by blast
qed

theorem operator_diff_under_mutex_witness:
  "\<exists>p mo' w. operator_call example_engine example_mo example_queues = Some (p, mo', w) \<and>
      p_files p = {|''b.osg'', ''c.osg'', ''d.osg''|} \<and>
      p_removedFiles p = {|''a.osg''|} \<and>
      p_effects p =
        [Lock, Read ExistingFilenameNodeMap, Read ExistingFilenameNodeMap, Read ExistingFilenameNodeMap,
         Read ExistingFilenameNodeMap, Read ExistingFilenameNodeMap, Unlock] \<and>
      guarded False (p_effects p)"
proof -
  have "getMaxContextID example_engine \<noteq> - 1" by (simp add: example_engine_def)
  from operator_diff_under_mutex[of example_engine example_mo example_queues, OF disjI2, OF this]
  obtain p mo' w where c: "operator_call example_engine example_mo example_queues = Some (p, mo', w)"
    and f: "p_files p = snd (readMasterFile example_engine (filename example_mo) {||})"
    and r: "p_removedFiles p = fmdom (existingFilenameNodeMap example_mo) |-| p_files p"
    and t: "p_effects p =
             Lock # replicate (fcard (p_files p) + fcard (fmdom (existingFilenameNodeMap example_mo)))
                      (Read ExistingFilenameNodeMap) @ [Unlock]"
    and g: "guarded False (p_effects p)"
    by blast
  from f have f': "p_files p = {|''b.osg'', ''c.osg'', ''d.osg''|}" by (simp add: example_files)
  from f' r have r': "p_removedFiles p = {|''a.osg''|}" by (simp add: example_removed)
  have "replicate 5 (Read ExistingFilenameNodeMap) = [Read ExistingFilenameNodeMap, Read ExistingFilenameNodeMap,
      Read ExistingFilenameNodeMap, Read ExistingFilenameNodeMap, Read ExistingFilenameNodeMap]"
    by (simp add: numeral_eq_Suc)
  with t f' have t': "p_effects p =
        [Lock, Read ExistingFilenameNodeMap, Read ExistingFilenameNodeMap, Read ExistingFilenameNodeMap,
         Read ExistingFilenameNodeMap, Read ExistingFilenameNodeMap, Unlock]"
    by (simp add: example_fcards)
  from c f' r' t' g show ?thesis by blast
qed

text \<open>
  C6. In every polling cycle that returns, the threads are those of the compile contexts
  0 through \<^verbatim>\<open>getMaxContextID()\<close> (they are looked for only when there is a new file);
  the queue of every graphics thread grows by the compile operations of this cycle, one
  \<^verbatim>\<open>GLObjectsOperation\<close> of each model that loaded for every place the thread has among
  the discovered threads and none for a file that did not load, followed by the barrier
  operations; and the keys of \<^verbatim>\<open>nodesToAdd\<close> are the new files that loaded.
\<close>

theorem operator_compiles_loaded_models:
  assumes "snd (readMasterFile e (filename mo) {||}) |\<subseteq>| fmdom (existingFilenameNodeMap mo)
           \<or> getMaxContextID e \<noteq> - 1"
  shows "\<exists>p mo' w. operator_call e mo queues = Some (p, mo', w) \<and>
           (if p_newFiles p = {||} then p_threads p = [] else p_threads p = discovered_threads e) \<and>
           (\<forall>gt. p_queues p gt =
                   queues gt @ compile_operations e (p_threads p) (sorted_list_of_fset (p_newFiles p)) gt
                     @ (if p_barrierBlock p
                        then replicate (count_list (p_threads p) gt) (BarrierOperation (length (p_threads p) + 1))
                        else [])) \<and>
           fmdom (p_nodesToAdd p) = ffilter (\<lambda>f. readNodeFile e f \<noteq> None) (p_newFiles p)"
proof -
  from assms obtain p mo' w where p: "prepare e mo queues = Some p"
    and c: "operator_call e mo queues = Some (p, mo', w)"
    by (rule operator_call_returns)
  have t: "if p_newFiles p = {||} then p_threads p = [] else p_threads p = discovered_threads e"
    using p by (cases rule: prepare_cases) (auto simp: load_new_files_fields)
  from c t prepare_queues[OF p] prepare_nodesToAdd_dom[OF p] show ?thesis by blast
qed

theorem operator_compiles_loaded_models_witness:
  "\<exists>p mo' w. operator_call example_engine example_mo example_queues = Some (p, mo', w) \<and>
      p_threads p = [20, 21] \<and>
      p_queues p 20 = [GLObjectsOperation 3, BarrierOperation 3] \<and>
      p_queues p 21 = [GLObjectsOperation 3, BarrierOperation 3] \<and>
      p_queues p 22 = [] \<and>
      fmdom (p_nodesToAdd p) = {|''c.osg''|}"
proof -
  have "getMaxContextID example_engine \<noteq> - 1" by (simp add: example_engine_def)
  from operator_compiles_loaded_models[of example_engine example_mo example_queues, OF disjI2, OF this]
  obtain p mo' w where c: "operator_call example_engine example_mo example_queues = Some (p, mo', w)"
    and q: "\<And>gt. p_queues p gt =
                   example_queues gt @ compile_operations example_engine (p_threads p) (sorted_list_of_fset (p_newFiles p)) gt
                     @ (if p_barrierBlock p
                        then replicate (count_list (p_threads p) gt) (BarrierOperation (length (p_threads p) + 1))
                        else [])"
    and d: "fmdom (p_nodesToAdd p) = ffilter (\<lambda>f. readNodeFile example_engine f \<noteq> None) (p_newFiles p)"
    by blast
  from c have p: "prepare example_engine example_mo example_queues = Some p"
    by (simp add: operator_call_Some)
  note ex = example_prepare[OF p]
  have s: "sorted_list_of_fset (p_newFiles p) = [''c.osg'', ''d.osg'']"
    by (simp add: ex sorted_list_of_fset_finsert sorted_list_of_fset_empty)
  have "fmdom (p_nodesToAdd p) = {|''c.osg''|}"
    unfolding d ex by (auto simp: example_engine_def)
  moreover have "p_queues p 20 = [GLObjectsOperation 3, BarrierOperation 3]"
    "p_queues p 21 = [GLObjectsOperation 3, BarrierOperation 3]" "p_queues p 22 = []"
    unfolding q s by (simp_all add: ex compile_operations_def example_engine_def example_queues_def)
  ultimately show ?thesis using c ex by blast
qed

section \<open>The claim about \<^verbatim>\<open>update\<close>\<close>

text \<open>
  C2. Every call of \<^verbatim>\<open>update(scene)\<close> merges the pending changes. First, for each
  filename of \<^verbatim>\<open>_nodesToRemove\<close>, in the order of the set, that is a key of
  \<^verbatim>\<open>_existingFilenameNodeMap\<close>, its node is removed as a child of the scene, and the
  map loses the entries of these filenames. Then every node of \<^verbatim>\<open>_nodesToAdd\<close>, in
  the order of its keys, is added as a child of the scene, and the map gets the entries
  of \<^verbatim>\<open>_nodesToAdd\<close>. Both pending collections are empty when \<^verbatim>\<open>update\<close> returns,
  and no other member changes.
\<close>

theorem update_merges_pending:
  "update mo scene =
     (mo\<lparr>existingFilenameNodeMap :=
           fmdrop_fset (nodesToRemove mo) (existingFilenameNodeMap mo) ++\<^sub>f nodesToAdd mo,
         nodesToRemove := {||},
         nodesToAdd := fmempty\<rparr>,
      fold (\<lambda>n s. addChild s n) (map snd (sorted_list_of_fmap (nodesToAdd mo)))
        (fold (\<lambda>n s. removeChild s n)
           (List.map_filter (fmlookup (existingFilenameNodeMap mo)) (sorted_list_of_fset (nodesToRemove mo)))
           scene))"
  by (rule update_eq)

theorem update_merges_pending_witness:
  "(case update example_pending example_scene of (mo', scene') \<Rightarrow>
      scene' = [9, 2, 3] \<and>
      fmlookup (existingFilenameNodeMap mo') ''a.osg'' = None \<and>
      fmlookup (existingFilenameNodeMap mo') ''b.osg'' = Some 2 \<and>
      fmlookup (existingFilenameNodeMap mo') ''c.osg'' = Some 3 \<and>
      fmdom (existingFilenameNodeMap mo') = {|''b.osg'', ''c.osg''|} \<and>
      nodesToRemove mo' = {||} \<and> nodesToAdd mo' = fmempty)"
  unfolding update_merges_pending[of example_pending example_scene]
  by (auto simp add: example_pending_def example_scene_def sorted_list_of_fmap_fmupd_fresh_empty
        sorted_list_of_fset_finsert sorted_list_of_fset_empty List.map_filter_def
        addChild_def removeChild_def)

section \<open>The claim about the scene and the map\<close>




section \<open>The claim about \<^verbatim>\<open>FilterHandler::handle\<close>\<close>

text \<open>
  C7. With a null technique pointer the handler returns false. With a live technique, an
  event that is not \<^verbatim>\<open>KEYDOWN\<close> returns false and leaves the technique as it is; a
  \<^verbatim>\<open>KEYDOWN\<close> event sets the filter matrix to \<^verbatim>\<open>GAUSSIAN\<close> on \<^verbatim>\<open>g\<close>, \<^verbatim>\<open>SMOOTH\<close>
  on \<^verbatim>\<open>s\<close>, \<^verbatim>\<open>SHARPEN\<close> on \<^verbatim>\<open>S\<close>, multiplies the filter width by 1.1 on \<^verbatim>\<open>+\<close>,
  divides it by 1.1 on \<^verbatim>\<open>-\<close>, adds 0.1 to the filter bias on \<^verbatim>\<open>>\<close>, subtracts 0.1 on
  \<^verbatim>\<open><\<close>, each time returning true, and returns false without a change on any other
  key. So the handler returns true exactly for a live technique, a \<^verbatim>\<open>KEYDOWN\<close> event and
  one of the seven keys.
\<close>

theorem handle_filter_keys:
  "handle ops None ea = (False, None) \<and>
   (getEventType ea \<noteq> KEYDOWN \<longrightarrow> handle ops (Some gt) ea = (False, Some gt)) \<and>
   (getEventType ea = KEYDOWN \<longrightarrow>
      (getKey ea = key_of CHR ''g'' \<longrightarrow>
         handle ops (Some gt) ea = (True, Some (gt\<lparr>filterMatrixAs := GAUSSIAN\<rparr>))) \<and>
      (getKey ea = key_of CHR ''s'' \<longrightarrow>
         handle ops (Some gt) ea = (True, Some (gt\<lparr>filterMatrixAs := SMOOTH\<rparr>))) \<and>
      (getKey ea = key_of CHR ''S'' \<longrightarrow>
         handle ops (Some gt) ea = (True, Some (gt\<lparr>filterMatrixAs := SHARPEN\<rparr>))) \<and>
      (getKey ea = key_of CHR ''+'' \<longrightarrow>
         handle ops (Some gt) ea =
           (True, Some (gt\<lparr>getFilterWidth := f_mul ops (getFilterWidth gt) (f_1_1 ops)\<rparr>))) \<and>
      (getKey ea = key_of CHR ''-'' \<longrightarrow>
         handle ops (Some gt) ea =
           (True, Some (gt\<lparr>getFilterWidth := f_div ops (getFilterWidth gt) (f_1_1 ops)\<rparr>))) \<and>
      (getKey ea = key_of CHR ''>'' \<longrightarrow>
         handle ops (Some gt) ea =
           (True, Some (gt\<lparr>getFilterBias := f_add ops (getFilterBias gt) (f_0_1 ops)\<rparr>))) \<and>
      (getKey ea = key_of CHR ''<'' \<longrightarrow>
         handle ops (Some gt) ea =
           (True, Some (gt\<lparr>getFilterBias := f_sub ops (getFilterBias gt) (f_0_1 ops)\<rparr>))) \<and>
      (getKey ea \<notin> filter_keys \<longrightarrow> handle ops (Some gt) ea = (False, Some gt))) \<and>
   (fst (handle ops gt_ptr ea) \<longleftrightarrow>
      gt_ptr \<noteq> None \<and> getEventType ea = KEYDOWN \<and> getKey ea \<in> filter_keys)"
  by (cases gt_ptr; cases "getEventType ea")
     (simp_all add: handle_def key_of_def filter_keys_def)

theorem handle_filter_keys_witness:
  "handle real_ops (Some \<lparr>filterMatrixAs = GAUSSIAN, getFilterWidth = 1, getFilterBias = 0\<rparr>)
      \<lparr>getEventType = KEYDOWN, getKey = key_of CHR ''+''\<rparr>
     = (True, Some \<lparr>filterMatrixAs = GAUSSIAN, getFilterWidth = 11 / 10, getFilterBias = 0\<rparr>) \<and>
   handle real_ops (Some \<lparr>filterMatrixAs = GAUSSIAN, getFilterWidth = 1, getFilterBias = 0\<rparr>)
      \<lparr>getEventType = KEYUP, getKey = key_of CHR ''+''\<rparr>
     = (False, Some \<lparr>filterMatrixAs = GAUSSIAN, getFilterWidth = 1, getFilterBias = 0\<rparr>) \<and>
   handle real_ops (Some \<lparr>filterMatrixAs = GAUSSIAN, getFilterWidth = 1, getFilterBias = 0\<rparr>)
      \<lparr>getEventType = KEYDOWN, getKey = key_of CHR ''x''\<rparr>
     = (False, Some \<lparr>filterMatrixAs = GAUSSIAN, getFilterWidth = 1, getFilterBias = 0\<rparr>)"
  using
    handle_filter_keys[of real_ops "\<lparr>getEventType = KEYDOWN, getKey = key_of CHR ''+''\<rparr>"
      "\<lparr>filterMatrixAs = GAUSSIAN, getFilterWidth = 1, getFilterBias = 0\<rparr>" None]
    handle_filter_keys[of real_ops "\<lparr>getEventType = KEYUP, getKey = key_of CHR ''+''\<rparr>"
      "\<lparr>filterMatrixAs = GAUSSIAN, getFilterWidth = 1, getFilterBias = 0\<rparr>" None]
    handle_filter_keys[of real_ops "\<lparr>getEventType = KEYDOWN, getKey = key_of CHR ''x''\<rparr>"
      "\<lparr>filterMatrixAs = GAUSSIAN, getFilterWidth = 1, getFilterBias = 0\<rparr>" None]
  by (simp add: real_ops_def filter_keys_def key_of_def)

section \<open>The claim about the \<^verbatim>\<open>-p\<close> arguments\<close>

text \<open>
  C10. The guard \<^verbatim>\<open>apm || !apm->valid()\<close> is true for every non-null \<^verbatim>\<open>apm\<close>,
  whatever \<^verbatim>\<open>valid()\<close> would return, and \<^verbatim>\<open>new\<close> never yields a null pointer. So for
  every \<^verbatim>\<open>-p <pathfile>\<close> argument, in their order, a newly constructed
  \<^verbatim>\<open>AnimationPathManipulator\<close> is added to the key-switch manipulator under the current
  path key, the manipulator with the number that \<^verbatim>\<open>getNumMatrixManipulators()\<close> gave
  before the addition is selected, and the path key moves on by one; no path file is
  skipped and no null pointer is dereferenced.
\<close>

theorem read_paths_adds_every_path:
  "path_guard m (Some a) = Inr True \<and>
   read_paths m arguments (ks, key) = Inr (fold (add_path m) arguments (ks, key))"
proof
  show "path_guard m (Some a) = Inr True" by (simp add: path_guard_def)
  show "read_paths m arguments (ks, key) = Inr (fold (add_path m) arguments (ks, key))"
    by (induction arguments arbitrary: ks key) (simp_all add: path_guard_def add_path_def)
qed

theorem read_paths_adds_every_path_witness:
  "read_paths example_manipulators [''a.path'', ''b.path''] (([], 0), of_char CHR ''5'')
     = Inr (([(53, ''Path'', ''a.path''), (54, ''Path'', ''b.path'')], 1), 55)"
  using read_paths_adds_every_path[of example_manipulators "''a.path''" "[''a.path'', ''b.path'']" "([], 0)" "of_char CHR ''5''"]
  by (simp add: add_path_def example_manipulators_def)

end
